theory Spec2Isabelle
  imports Main "HOL-Library.AList"
begin

section \<open>Data model\<close>

text \<open>
  The service of \<^verbatim>\<open>src/routes/pets.ts\<close> stores and returns JSON objects. A JSON value is a
  datatype; an object (and so a pet document, and a request body as \<^verbatim>\<open>express.json()\<close>
  hands it to the handler) is a list of name/value pairs in property order, looked up
  with \<open>map_of\<close>. The handlers never compute with numbers, so the numeric payload is kept
  as an integer.
\<close>

datatype json =
    JNull
  | JBool bool
  | JNum int
  | JStr string
  | JArr "json list"
  | JObj "(string \<times> json) list"

type_synonym document = "(string \<times> json) list"

text \<open>A rejected promise of the data store: a JavaScript \<^verbatim>\<open>Error\<close> with its \<^verbatim>\<open>message\<close>.\<close>

datatype fault = Fault (message: string)

text \<open>
  What a handler passes to \<^verbatim>\<open>res.send\<close>: one document, the array of documents, the
  value \<^verbatim>\<open>null\<close>, or a text (\<^verbatim>\<open>error.message\<close>).
\<close>

datatype payload = Doc document | Docs "document list" | Null | Text string

record response =
  status :: nat
  body :: payload

text \<open>
  A handler is an \<^verbatim>\<open>async\<close> function: it either answers the request, or its promise is
  rejected with the fault that nothing caught.
\<close>

datatype outcome = Responded response | Unhandled fault

text \<open>The status code a request was answered with, if it was answered.\<close>

fun status_of :: "outcome \<Rightarrow> nat option" where
  "status_of (Responded r) = Some (status r)"
| "status_of (Unhandled e) = None"

section \<open>Decimal numerals\<close>

text \<open>
  The decimal numeral of a natural number, as JavaScript's \<^verbatim>\<open>String(n)\<close> writes it. It is
  the text of a status code without a registered message, and the reference store below
  uses it for the identifiers it issues.
\<close>

definition digit :: "nat \<Rightarrow> char" where
  "digit n = ''0123456789'' ! n"

function dec :: "nat \<Rightarrow> string" where
  "dec n = (if n < 10 then [digit n] else dec (n div 10) @ [digit (n mod 10)])"
  by pat_completeness auto
termination
  by (relation "measure id") auto

declare dec.simps [simp del]

section \<open>The response object of Express\<close>

text \<open>
  The three ways the handlers answer. \<^verbatim>\<open>res.send(x)\<close> keeps the default status 200;
  \<^verbatim>\<open>res.status(c).send(x)\<close> sets the status first. \<^verbatim>\<open>res.sendStatus(c)\<close> is Express's
  shorthand that sets the status and sends the registered status message of \<^verbatim>\<open>c\<close> as the
  text body, the code number itself when \<^verbatim>\<open>c\<close> has no registered message: in the words of
  the Express API reference, \<^verbatim>\<open>res.sendStatus(404)\<close> is equivalent to
  \<^verbatim>\<open>res.status(404).send('Not Found')\<close>. The table below holds the messages of the codes
  this router uses.
\<close>

definition status_message :: "nat \<Rightarrow> string" where
  "status_message c =
     (if c = 200 then ''OK''
      else if c = 201 then ''Created''
      else if c = 404 then ''Not Found''
      else if c = 500 then ''Internal Server Error''
      else dec c)"

definition send :: "payload \<Rightarrow> response" where
  "send x = \<lparr>status = 200, body = x\<rparr>"

definition status_send :: "nat \<Rightarrow> payload \<Rightarrow> response" where
  "status_send c x = \<lparr>status = c, body = x\<rparr>"

definition sendStatus :: "nat \<Rightarrow> response" where
  "sendStatus c = \<lparr>status = c, body = Text (status_message c)\<rparr>"

section \<open>The data store the handlers call\<close>

text \<open>
  \<^verbatim>\<open>req.db\<close> is a \<^verbatim>\<open>Datastore\<close> of the package \<^verbatim>\<open>nedb-promises\<close>, created once in the
  entry point and attached to every request. The handlers use five of its methods, each
  with one fixed shape of arguments; the store is therefore a parameter of every handler:
  a record of these five operations over a store state \<open>'s\<close>. Each returns either a fault
  (the promise is rejected) or its result; the writing operations also return the next
  state.
  \<^item> \<open>db_find\<close>: \<^verbatim>\<open>find({})\<close>
  \<^item> \<open>db_findOne i\<close>: \<^verbatim>\<open>findOne({ _id: i })\<close>, \<open>None\<close> for \<^verbatim>\<open>null\<close>
  \<^item> \<open>db_insert d\<close>: \<^verbatim>\<open>insert(d)\<close>
  \<^item> \<open>db_update i b\<close>: \<^verbatim>\<open>update({ _id: i }, { $set: b }, { returnUpdatedDocs: true })\<close>
  \<^item> \<open>db_remove i\<close>: \<^verbatim>\<open>remove({ _id: i }, {})\<close>, the number of removed documents
\<close>

record 's datastore =
  db_find :: "'s \<Rightarrow> fault + document list"
  db_findOne :: "string \<Rightarrow> 's \<Rightarrow> fault + document option"
  db_insert :: "document \<Rightarrow> 's \<Rightarrow> (fault + document) \<times> 's"
  db_update :: "string \<Rightarrow> document \<Rightarrow> 's \<Rightarrow> (fault + document option) \<times> 's"
  db_remove :: "string \<Rightarrow> 's \<Rightarrow> (fault + nat) \<times> 's"

section \<open>The five route handlers\<close>

text \<open>\<^verbatim>\<open>router.get('/')\<close>: no \<^verbatim>\<open>try\<close>, a rejected \<^verbatim>\<open>find\<close> rejects the handler.\<close>

definition get_pets :: "'s datastore \<Rightarrow> 's \<Rightarrow> outcome \<times> 's" where
  "get_pets db s =
     (case db_find db s of
        Inl e \<Rightarrow> (Unhandled e, s)
      | Inr pets \<Rightarrow> (Responded (send (Docs pets)), s))"

text \<open>\<^verbatim>\<open>router.get('/:id')\<close>: no \<^verbatim>\<open>try\<close> either.\<close>

definition get_pet :: "'s datastore \<Rightarrow> string \<Rightarrow> 's \<Rightarrow> outcome \<times> 's" where
  "get_pet db i s =
     (case db_findOne db i s of
        Inl e \<Rightarrow> (Unhandled e, s)
      | Inr None \<Rightarrow> (Responded (sendStatus 404), s)
      | Inr (Some pet) \<Rightarrow> (Responded (send (Doc pet)), s))"

text \<open>
  \<^verbatim>\<open>router.post('/')\<close>: the body is copied property by property (\<^verbatim>\<open>{ ...req.body }\<close>, the
  same list of pairs) and handed to \<^verbatim>\<open>insert\<close>; the \<^verbatim>\<open>catch\<close> answers 500 with the message.
\<close>

definition post_pet :: "'s datastore \<Rightarrow> document \<Rightarrow> 's \<Rightarrow> outcome \<times> 's" where
  "post_pet db req_body s =
     (let pet = req_body in
      case db_insert db pet s of
        (Inl e, s') \<Rightarrow> (Responded (status_send 500 (Text (message e))), s')
      | (Inr insertedPet, s') \<Rightarrow> (Responded (status_send 201 (Doc insertedPet)), s'))"

text \<open>
  \<^verbatim>\<open>router.put('/:id')\<close>: look the document up first, answer 404 when there is none,
  update otherwise; both store calls are inside the \<^verbatim>\<open>try\<close>.
\<close>

definition put_pet :: "'s datastore \<Rightarrow> string \<Rightarrow> document \<Rightarrow> 's \<Rightarrow> outcome \<times> 's" where
  "put_pet db i req_body s =
     (case db_findOne db i s of
        Inl e \<Rightarrow> (Responded (status_send 500 (Text (message e))), s)
      | Inr None \<Rightarrow> (Responded (sendStatus 404), s)
      | Inr (Some pet) \<Rightarrow>
          (case db_update db i req_body s of
             (Inl e, s') \<Rightarrow> (Responded (status_send 500 (Text (message e))), s')
           | (Inr None, s') \<Rightarrow> (Responded (send Null), s')
           | (Inr (Some updatedPet), s') \<Rightarrow> (Responded (send (Doc updatedPet)), s')))"

text \<open>\<^verbatim>\<open>router.delete('/:id')\<close>: the same lookup, then \<^verbatim>\<open>remove\<close>, then the bare status 200.\<close>

definition delete_pet :: "'s datastore \<Rightarrow> string \<Rightarrow> 's \<Rightarrow> outcome \<times> 's" where
  "delete_pet db i s =
     (case db_findOne db i s of
        Inl e \<Rightarrow> (Responded (status_send 500 (Text (message e))), s)
      | Inr None \<Rightarrow> (Responded (sendStatus 404), s)
      | Inr (Some pet) \<Rightarrow>
          (case db_remove db i s of
             (Inl e, s') \<Rightarrow> (Responded (status_send 500 (Text (message e))), s')
           | (Inr n, s') \<Rightarrow> (Responded (sendStatus 200), s')))"

section \<open>Requests in sequence\<close>

text \<open>
  One request after the other, each handler run to its end before the next starts (the
  sequential reading of the service): the state the store is left in by one request is
  the state the next one starts from.
\<close>

datatype request =
    ListPets
  | GetPet string
  | PostPet document
  | PutPet string document
  | DeletePet string

fun handle :: "'s datastore \<Rightarrow> request \<Rightarrow> 's \<Rightarrow> outcome \<times> 's" where
  "handle db ListPets s = get_pets db s"
| "handle db (GetPet i) s = get_pet db i s"
| "handle db (PostPet b) s = post_pet db b s"
| "handle db (PutPet i b) s = put_pet db i b s"
| "handle db (DeletePet i) s = delete_pet db i s"

fun run :: "'s datastore \<Rightarrow> request list \<Rightarrow> 's \<Rightarrow> outcome list \<times> 's" where
  "run db [] s = ([], s)"
| "run db (r # rs) s =
     (case handle db r s of
        (out, s') \<Rightarrow> (case run db rs s' of (outs, s'') \<Rightarrow> (out # outs, s'')))"

section \<open>Documents and queries by identifier\<close>

text \<open>
  The query \<^verbatim>\<open>{ _id: i }\<close> of the handlers matches a document whose \<^verbatim>\<open>_id\<close> field is the
  string \<open>i\<close> (the path parameter is a string). \<open>ids_of\<close> lists the \<^verbatim>\<open>_id\<close> values of
  documents in order.
\<close>

definition has_id :: "string \<Rightarrow> document \<Rightarrow> bool" where
  "has_id i d = (map_of d ''_id'' = Some (JStr i))"

definition ids_of :: "document list \<Rightarrow> json option list" where
  "ids_of ds = map (\<lambda>d. map_of d ''_id'') ds"

text \<open>An update or a removal without \<^verbatim>\<open>multi\<close> acts on the first match only.\<close>

fun replace_first :: "('a \<Rightarrow> bool) \<Rightarrow> 'a \<Rightarrow> 'a list \<Rightarrow> 'a list" where
  "replace_first P y [] = []"
| "replace_first P y (x # xs) = (if P x then y # xs else x # replace_first P y xs)"

fun remove_first :: "('a \<Rightarrow> bool) \<Rightarrow> 'a list \<Rightarrow> 'a list" where
  "remove_first P [] = []"
| "remove_first P (x # xs) = (if P x then xs else x # remove_first P xs)"

section \<open>What the handlers assume of the store\<close>

text \<open>
  Modelled from the spec: the contract of the Document Store. The store is the third-party
  package \<^verbatim>\<open>nedb-promises\<close>; its code is no part of the repository's sources, and the spec
  describes it as an external collaborator (sections 2, 3 and 4.1): it keeps the records,
  answers a full scan with all of them in store order and a lookup by identifier with the
  record or nothing, assigns on insert a unique, non-empty identifier to the record it
  stores and returns, changes on update only the matched record and never its
  identifier, inserts nothing on update, and removes on remove the matched record.

  \<open>view s\<close> is the list of records a store state holds, \<open>good s\<close> the states the store can
  be in. A store keeps the contract when, in every good state:
  \<^item> no two records share an \<^verbatim>\<open>_id\<close>;
  \<^item> \<^verbatim>\<open>find({})\<close> answers \<open>view s\<close>, and \<^verbatim>\<open>findOne({ _id: i })\<close> the first record with that
    identifier;
  \<^item> \<^verbatim>\<open>insert(d)\<close> appends \<open>d\<close> with its \<^verbatim>\<open>_id\<close> set to a non-empty identifier no record
    has, and returns that record;
  \<^item> \<^verbatim>\<open>update\<close> either returns a record with the queried identifier, which has replaced
    the first match, or leaves the records as they were;
  \<^item> \<^verbatim>\<open>remove\<close> takes the first match out;
  \<^item> every write leads to a good state again.
\<close>

definition store_contract ::
  "'s datastore \<Rightarrow> ('s \<Rightarrow> document list) \<Rightarrow> ('s \<Rightarrow> bool) \<Rightarrow> bool" where
  "store_contract db view good \<longleftrightarrow>
     (\<forall>s. good s \<longrightarrow> distinct (ids_of (view s))) \<and>
     (\<forall>s. good s \<longrightarrow> db_find db s = Inr (view s)) \<and>
     (\<forall>i s. good s \<longrightarrow> db_findOne db i s = Inr (find (has_id i) (view s))) \<and>
     (\<forall>d s. good s \<longrightarrow>
        good (snd (db_insert db d s)) \<and>
        (\<exists>i. i \<noteq> [] \<and> find (has_id i) (view s) = None \<and>
             fst (db_insert db d s) = Inr (AList.update ''_id'' (JStr i) d) \<and>
             view (snd (db_insert db d s)) = view s @ [AList.update ''_id'' (JStr i) d])) \<and>
     (\<forall>i b s. good s \<longrightarrow>
        good (snd (db_update db i b s)) \<and>
        (case fst (db_update db i b s) of
           Inr (Some d') \<Rightarrow>
             has_id i d' \<and>
             view (snd (db_update db i b s)) = replace_first (has_id i) d' (view s)
         | _ \<Rightarrow> view (snd (db_update db i b s)) = view s)) \<and>
     (\<forall>i s. good s \<longrightarrow>
        good (snd (db_remove db i s)) \<and>
        (\<exists>n. fst (db_remove db i s) = Inr n) \<and>
        view (snd (db_remove db i s)) = remove_first (has_id i) (view s))"

section \<open>A reference document store\<close>

text \<open>
  Modelled from the spec: a Document Store that keeps the contract, as the spec describes
  the store (sections 2, 3 and 4.1; its code, the package \<^verbatim>\<open>nedb-promises\<close>, is no part of
  the repository's sources). The state is the list of documents in insertion order and
  the number of identifiers issued so far; the identifier issued next is the decimal
  numeral of that number. Insert sets the \<^verbatim>\<open>_id\<close> field of the document to the
  identifier it generates. A \<^verbatim>\<open>$set\<close> update gives every field named in the patch the
  patch's value (in place when the document has the field, as a new field otherwise) and
  leaves the other fields alone; since the identifier is immutable, a patch that would
  give the document another \<^verbatim>\<open>_id\<close> is refused with a fault and nothing is changed.
\<close>

record store =
  docs :: "document list"
  issued :: nat

definition empty_store :: store where
  "empty_store = \<lparr>docs = [], issued = 0\<rparr>"

fun set_fields :: "document \<Rightarrow> document \<Rightarrow> document" where
  "set_fields [] d = d"
| "set_fields ((k, v) # ps) d = AList.update k v (set_fields ps d)"

definition mem_find :: "store \<Rightarrow> fault + document list" where
  "mem_find s = Inr (docs s)"

definition mem_findOne :: "string \<Rightarrow> store \<Rightarrow> fault + document option" where
  "mem_findOne i s = Inr (find (has_id i) (docs s))"

definition mem_insert :: "document \<Rightarrow> store \<Rightarrow> (fault + document) \<times> store" where
  "mem_insert d s =
     (let inserted = AList.update ''_id'' (JStr (dec (issued s))) d
      in (Inr inserted, \<lparr>docs = docs s @ [inserted], issued = Suc (issued s)\<rparr>))"

definition mem_update ::
  "string \<Rightarrow> document \<Rightarrow> store \<Rightarrow> (fault + document option) \<times> store" where
  "mem_update i patch s =
     (case find (has_id i) (docs s) of
        None \<Rightarrow> (Inr None, s)
      | Some d \<Rightarrow>
          (let updated = set_fields patch d in
           if has_id i updated
           then (Inr (Some updated), s\<lparr>docs := replace_first (has_id i) updated (docs s)\<rparr>)
           else (Inl (Fault ''You cannot change the _id of a document''), s)))"

definition mem_remove :: "string \<Rightarrow> store \<Rightarrow> (fault + nat) \<times> store" where
  "mem_remove i s =
     (case find (has_id i) (docs s) of
        None \<Rightarrow> (Inr 0, s)
      | Some d \<Rightarrow> (Inr 1, s\<lparr>docs := remove_first (has_id i) (docs s)\<rparr>))"

definition mem_db :: "store datastore" where
  "mem_db = \<lparr>db_find = mem_find, db_findOne = mem_findOne, db_insert = mem_insert,
             db_update = mem_update, db_remove = mem_remove\<rparr>"

text \<open>The store after a sequence of requests on the empty store.\<close>

definition reach :: "request list \<Rightarrow> store" where
  "reach rs = snd (run mem_db rs empty_store)"

text \<open>
  The good states of the reference store: no two documents share an \<^verbatim>\<open>_id\<close>, and every
  \<^verbatim>\<open>_id\<close> is one of the identifiers issued so far.
\<close>

definition wf_store :: "store \<Rightarrow> bool" where
  "wf_store s \<longleftrightarrow>
     distinct (ids_of (docs s)) \<and>
     set (ids_of (docs s)) \<subseteq> (\<lambda>k. Some (JStr (dec k))) ` {..<issued s}"

section \<open>A store whose operations are rejected\<close>

text \<open>
  A store on a failing disk, to exercise the \<^verbatim>\<open>catch\<close> blocks: the full scan and every
  write are rejected, and so is the lookup of one identifier; the other lookups are
  answered from the documents in memory.
\<close>

definition failing_db :: "store datastore" where
  "failing_db =
     \<lparr>db_find = (\<lambda>s. Inl (Fault ''EIO: read error'')),
      db_findOne = (\<lambda>i s. if i = ''unreadable'' then Inl (Fault ''EIO: read error'')
                           else mem_findOne i s),
      db_insert = (\<lambda>d s. (Inl (Fault ''ENOSPC: no space left on device''), s)),
      db_update = (\<lambda>i b s. (Inl (Fault ''ENOSPC: no space left on device''), s)),
      db_remove = (\<lambda>i s. (Inl (Fault ''ENOSPC: no space left on device''), s))\<rparr>"

section \<open>Bookkeeping over a run\<close>

text \<open>How many of the requests are Creates.\<close>

fun is_create :: "request \<Rightarrow> bool" where
  "is_create (PostPet b) = True"
| "is_create r = False"

definition creates :: "request list \<Rightarrow> nat" where
  "creates rs = length (filter is_create rs)"

text \<open>A successful Delete: a Delete request that was answered with status 200.\<close>

fun delete_ok :: "request \<times> outcome \<Rightarrow> bool" where
  "delete_ok (DeletePet i, Responded r) = (status r = 200)"
| "delete_ok ro = False"

definition successful_deletes :: "request list \<Rightarrow> outcome list \<Rightarrow> nat" where
  "successful_deletes rs outs = length (filter delete_ok (zip rs outs))"

text \<open>The identifier in the record a Create returned with status 201.\<close>

fun created_id :: "request \<times> outcome \<Rightarrow> string list" where
  "created_id (PostPet b, Responded r) =
     (if status r = 201
      then (case body r of
              Doc d \<Rightarrow> (case map_of d ''_id'' of Some (JStr i) \<Rightarrow> [i] | _ \<Rightarrow> [])
            | _ \<Rightarrow> [])
      else [])"
| "created_id ro = []"

definition created_ids :: "request list \<Rightarrow> outcome list \<Rightarrow> string list" where
  "created_ids rs outs = concat (map created_id (zip rs outs))"

section \<open>Decimal identifiers are non-empty and pairwise different\<close>

lemma digit_inj: "n < 10 \<Longrightarrow> m < 10 \<Longrightarrow> digit n = digit m \<Longrightarrow> n = m"
proof -
  assume n: "n < 10" and m: "m < 10" and e: "digit n = digit m"
  have dn: "distinct ''0123456789''" by simp
  have "length ''0123456789'' = 10" by simp
  with n m e dn show ?thesis
    unfolding digit_def by (metis nth_eq_iff_index_eq)
qed

lemma dec_not_Nil: "dec n \<noteq> []"
  by (subst dec.simps) simp

lemma dec_length_ge2: "\<not> n < 10 \<Longrightarrow> 2 \<le> length (dec n)"
proof -
  assume "\<not> n < 10"
  then have "dec n = dec (n div 10) @ [digit (n mod 10)]" by (subst dec.simps) simp
  moreover have "1 \<le> length (dec (n div 10))"
    using dec_not_Nil[of "n div 10"] by (cases "dec (n div 10)") auto
  ultimately show ?thesis by simp
qed

lemma dec_inj: "dec n = dec m \<Longrightarrow> n = m"
proof (induction n arbitrary: m rule: dec.induct)
  case (1 n)
  show ?case
  proof (cases "n < 10")
    case True
    then have dn: "dec n = [digit n]" by (subst dec.simps) simp
    show ?thesis
    proof (cases "m < 10")
      case mt: True
      then have "dec m = [digit m]" by (subst dec.simps) simp
      with dn "1.prems" have "digit n = digit m" by simp
      with True mt show ?thesis by (rule digit_inj)
    next
      case False
      from dec_length_ge2[OF False] dn "1.prems" show ?thesis by simp
    qed
  next
    case False
    then have dn: "dec n = dec (n div 10) @ [digit (n mod 10)]" by (subst dec.simps) simp
    show ?thesis
    proof (cases "m < 10")
      case True
      then have "dec m = [digit m]" by (subst dec.simps) simp
      with dec_length_ge2[OF False] "1.prems" show ?thesis by simp
    next
      case mf: False
      then have dm: "dec m = dec (m div 10) @ [digit (m mod 10)]" by (subst dec.simps) simp
      from dn dm "1.prems" have a: "dec (n div 10) = dec (m div 10)"
        and b: "digit (n mod 10) = digit (m mod 10)"
        by simp_all
      from "1.IH"[OF False a] have q: "n div 10 = m div 10" .
      have "n mod 10 = m mod 10" by (rule digit_inj[OF _ _ b]) simp_all
      with q show ?thesis by (metis div_mult_mod_eq)
    qed
  qed
qed

lemma distinct_map_dec: "distinct (map dec [a ..< b])"
  by (simp add: distinct_map inj_on_def) (metis dec_inj)

lemma upt_add_Suc: "[n ..< n + Suc c] = n # [Suc n ..< Suc n + c]"
  using upt_conv_Cons[of n "n + Suc c"] by simp

section \<open>Lists of documents\<close>

lemma find_has: "find P xs = Some x \<Longrightarrow> P x"
  by (auto simp: find_Some_iff)

lemma remove_first_id: "find P xs = None \<Longrightarrow> remove_first P xs = xs"
  by (induction xs) (auto split: if_splits)

lemma ids_of_replace_first:
  "has_id i y \<Longrightarrow> ids_of (replace_first (has_id i) y xs) = ids_of xs"
  by (induction xs) (auto simp: ids_of_def has_id_def)

lemma others_replace_first:
  "has_id i y \<Longrightarrow>
   filter (\<lambda>d. \<not> has_id i d) (replace_first (has_id i) y xs) = filter (\<lambda>d. \<not> has_id i d) xs"
  by (induction xs) auto

lemma others_remove_first:
  "filter (\<lambda>d. \<not> P d) (remove_first P xs) = filter (\<lambda>d. \<not> P d) xs"
  by (induction xs) auto

lemma find_replace_first:
  "P y \<Longrightarrow> find P xs = Some x \<Longrightarrow> find P (replace_first P y xs) = Some y"
  by (induction xs) auto

lemma length_replace_first: "length (replace_first P y xs) = length xs"
  by (induction xs) auto

lemma length_remove_first: "find P xs = Some x \<Longrightarrow> Suc (length (remove_first P xs)) = length xs"
  by (induction xs) (auto split: if_splits)

lemma set_remove_first: "set (remove_first P xs) \<subseteq> set xs"
  by (induction xs) auto

lemma ids_of_remove_first_subset: "set (ids_of (remove_first P xs)) \<subseteq> set (ids_of xs)"
  using set_remove_first[of P xs] by (auto simp: ids_of_def)

lemma distinct_ids_remove_first:
  "distinct (ids_of xs) \<Longrightarrow> distinct (ids_of (remove_first P xs))"
proof (induction xs)
  case Nil
  then show ?case by simp
next
  case (Cons x xs)
  then show ?case using ids_of_remove_first_subset[of P xs] by (auto simp: ids_of_def)
qed

text \<open>With identifiers that are unique, taking the first match out leaves no match.\<close>

lemma find_remove_first:
  "distinct (ids_of xs) \<Longrightarrow> find (has_id i) (remove_first (has_id i) xs) = None"
proof (induction xs)
  case Nil
  then show ?case by simp
next
  case (Cons x xs)
  show ?case
  proof (cases "has_id i x")
    case True
    with Cons.prems have "map_of x ''_id'' \<notin> set (ids_of xs)" by (simp add: ids_of_def)
    with True have "\<not> (\<exists>y. y \<in> set xs \<and> has_id i y)" by (force simp: ids_of_def has_id_def)
    with True show ?thesis by (simp add: find_None_iff)
  next
    case False
    with Cons show ?thesis by (simp add: ids_of_def)
  qed
qed

lemma find_append_fresh:
  "\<not> (\<exists>x. x \<in> set xs \<and> P x) \<Longrightarrow> P y \<Longrightarrow> find P (xs @ [y]) = Some y"
  by (induction xs) auto

lemma has_id_inserted: "has_id i (AList.update ''_id'' (JStr i) b)"
  by (simp add: has_id_def update_conv')

lemma map_of_set_fields: "map_of (set_fields ps d) = map_of d ++ map_of ps"
  by (induction ps arbitrary: d) (auto simp: update_conv')

lemma has_id_set_fields:
  "has_id i d \<Longrightarrow> map_of b ''_id'' = None \<or> map_of b ''_id'' = Some (JStr i) \<Longrightarrow>
   has_id i (set_fields b d)"
  by (auto simp: has_id_def map_of_set_fields map_add_def)

section \<open>Runs, one request at a time\<close>

lemma run_Cons_snd: "snd (run db (r # rs) s) = snd (run db rs (snd (handle db r s)))"
  by (simp split: prod.splits)

lemma run_Cons_fst:
  "fst (run db (r # rs) s) = fst (handle db r s) # fst (run db rs (snd (handle db r s)))"
  by (simp split: prod.splits)

lemma creates_Cons: "creates (r # rs) = (if is_create r then Suc (creates rs) else creates rs)"
  by (simp add: creates_def)

lemma successful_deletes_Cons:
  "successful_deletes (r # rs) (out # outs) =
     (if delete_ok (r, out) then Suc (successful_deletes rs outs) else successful_deletes rs outs)"
  by (simp add: successful_deletes_def)

lemma created_ids_Cons:
  "created_ids (r # rs) (out # outs) = created_id (r, out) @ created_ids rs outs"
  by (simp add: created_ids_def)

section \<open>The handlers over a store that keeps the contract\<close>

lemma contract_distinct:
  "store_contract db view good \<Longrightarrow> good s \<Longrightarrow> distinct (ids_of (view s))"
  by (simp add: store_contract_def)

lemma contract_find: "store_contract db view good \<Longrightarrow> good s \<Longrightarrow> db_find db s = Inr (view s)"
  by (simp add: store_contract_def)

lemma contract_findOne:
  "store_contract db view good \<Longrightarrow> good s \<Longrightarrow>
   db_findOne db i s = Inr (find (has_id i) (view s))"
  by (simp add: store_contract_def)

lemma contract_insert:
  "store_contract db view good \<Longrightarrow> good s \<Longrightarrow>
     good (snd (db_insert db d s)) \<and>
     (\<exists>i. i \<noteq> [] \<and> find (has_id i) (view s) = None \<and>
          fst (db_insert db d s) = Inr (AList.update ''_id'' (JStr i) d) \<and>
          view (snd (db_insert db d s)) = view s @ [AList.update ''_id'' (JStr i) d])"
  by (simp add: store_contract_def)

lemma contract_update:
  "store_contract db view good \<Longrightarrow> good s \<Longrightarrow>
     good (snd (db_update db i b s)) \<and>
     (case fst (db_update db i b s) of
        Inr (Some d') \<Rightarrow>
          has_id i d' \<and> view (snd (db_update db i b s)) = replace_first (has_id i) d' (view s)
      | _ \<Rightarrow> view (snd (db_update db i b s)) = view s)"
  by (simp add: store_contract_def)

lemma contract_remove:
  "store_contract db view good \<Longrightarrow> good s \<Longrightarrow>
     good (snd (db_remove db i s)) \<and>
     (\<exists>n. fst (db_remove db i s) = Inr n) \<and>
     view (snd (db_remove db i s)) = remove_first (has_id i) (view s)"
  by (simp add: store_contract_def)

lemma get_pets_contract:
  "store_contract db view good \<Longrightarrow> good s \<Longrightarrow>
   get_pets db s = (Responded \<lparr>status = 200, body = Docs (view s)\<rparr>, s)"
  by (simp add: get_pets_def contract_find send_def)

lemma get_pet_contract:
  "store_contract db view good \<Longrightarrow> good s \<Longrightarrow>
   get_pet db i s =
     (case find (has_id i) (view s) of
        None \<Rightarrow> (Responded (sendStatus 404), s)
      | Some d \<Rightarrow> (Responded \<lparr>status = 200, body = Doc d\<rparr>, s))"
  by (simp add: get_pet_def contract_findOne send_def split: option.splits)

lemma post_pet_contract:
  assumes "store_contract db view good" and "good s"
  shows "\<exists>i. i \<noteq> [] \<and> find (has_id i) (view s) = None \<and>
           post_pet db b s =
             (Responded \<lparr>status = 201, body = Doc (AList.update ''_id'' (JStr i) b)\<rparr>,
              snd (db_insert db b s)) \<and>
           view (snd (db_insert db b s)) = view s @ [AList.update ''_id'' (JStr i) b] \<and>
           good (snd (db_insert db b s))"
proof -
  from contract_insert[OF assms, of b] obtain i where
    v: "good (snd (db_insert db b s))" and i: "i \<noteq> []" and f: "find (has_id i) (view s) = None"
    and r: "fst (db_insert db b s) = Inr (AList.update ''_id'' (JStr i) b)"
    and w: "view (snd (db_insert db b s)) = view s @ [AList.update ''_id'' (JStr i) b]"
    by blast
  from r have "post_pet db b s =
      (Responded \<lparr>status = 201, body = Doc (AList.update ''_id'' (JStr i) b)\<rparr>,
       snd (db_insert db b s))"
    by (cases "db_insert db b s") (simp add: post_pet_def status_send_def)
  with v i f w show ?thesis by blast
qed

lemma delete_pet_contract:
  assumes "store_contract db view good" and "good s"
  shows "good (snd (delete_pet db i s)) \<and>
         view (snd (delete_pet db i s)) = remove_first (has_id i) (view s) \<and>
         fst (delete_pet db i s) =
           (case find (has_id i) (view s) of
              None \<Rightarrow> Responded (sendStatus 404) | Some d \<Rightarrow> Responded (sendStatus 200))"
proof (cases "find (has_id i) (view s)")
  case None
  with assms show ?thesis
    by (simp add: delete_pet_def contract_findOne[OF assms] remove_first_id)
next
  case (Some d)
  from contract_remove[OF assms, of i] obtain n where
    v: "good (snd (db_remove db i s))" and r: "fst (db_remove db i s) = Inr n"
    and w: "view (snd (db_remove db i s)) = remove_first (has_id i) (view s)" by blast
  from r Some have "delete_pet db i s = (Responded (sendStatus 200), snd (db_remove db i s))"
    by (cases "db_remove db i s") (simp add: delete_pet_def contract_findOne[OF assms])
  with v w Some show ?thesis by simp
qed

lemma put_pet_contract:
  assumes "store_contract db view good" and "good s"
  shows "good (snd (put_pet db i b s)) \<and>
         (view (snd (put_pet db i b s)) = view s \<or>
          (\<exists>d'. has_id i d' \<and>
                view (snd (put_pet db i b s)) = replace_first (has_id i) d' (view s)))"
proof (cases "find (has_id i) (view s)")
  case None
  with assms show ?thesis by (simp add: put_pet_def contract_findOne[OF assms])
next
  case (Some d)
  then have p: "snd (put_pet db i b s) = snd (db_update db i b s)"
    by (simp add: put_pet_def contract_findOne[OF assms]
        split: prod.splits sum.splits option.splits)
  from contract_update[OF assms, of i b] show ?thesis
    unfolding p by (auto split: sum.splits option.splits)
qed

lemma handle_good:
  assumes "store_contract db view good" and "good s"
  shows "good (snd (handle db r s))"
proof (cases r)
  case ListPets
  with assms show ?thesis by (simp add: get_pets_contract[OF assms])
next
  case (GetPet i)
  with assms show ?thesis by (simp add: get_pet_contract[OF assms] split: option.splits)
next
  case (PostPet b)
  with post_pet_contract[OF assms, of b] show ?thesis by auto
next
  case (PutPet i b)
  with put_pet_contract[OF assms, of i b] show ?thesis by simp
next
  case (DeletePet i)
  with delete_pet_contract[OF assms, of i] show ?thesis by simp
qed

text \<open>One request changes the number of records by the Create or successful Delete it is.\<close>

lemma handle_count:
  assumes "store_contract db view good" and "good s"
  shows "length (view (snd (handle db r s))) + (if delete_ok (r, fst (handle db r s)) then 1 else 0)
           = length (view s) + (if is_create r then 1 else 0)"
proof (cases r)
  case ListPets
  then show ?thesis by (simp add: get_pets_contract[OF assms])
next
  case (GetPet i)
  then show ?thesis by (simp add: get_pet_contract[OF assms] split: option.splits)
next
  case (PostPet b)
  with post_pet_contract[OF assms, of b] show ?thesis by auto
next
  case (PutPet i b)
  with put_pet_contract[OF assms, of i b] show ?thesis by (auto simp: length_replace_first)
next
  case (DeletePet i)
  note d = delete_pet_contract[OF assms, of i]
  show ?thesis
  proof (cases "find (has_id i) (view s)")
    case None
    with d DeletePet show ?thesis by (simp add: remove_first_id sendStatus_def)
  next
    case (Some x)
    from length_remove_first[OF Some] d DeletePet Some show ?thesis by (simp add: sendStatus_def)
  qed
qed

lemma run_good:
  "store_contract db view good \<Longrightarrow> good s \<Longrightarrow> good (snd (run db rs s))"
proof (induction rs arbitrary: s)
  case Nil
  then show ?case by simp
next
  case (Cons r rs)
  from Cons.prems have "good (snd (handle db r s))" by (rule handle_good)
  from Cons.IH[OF Cons.prems(1) this] show ?case by (simp only: run_Cons_snd)
qed

lemma run_count:
  "store_contract db view good \<Longrightarrow> good s \<Longrightarrow>
   length (view (snd (run db rs s))) + successful_deletes rs (fst (run db rs s))
     = length (view s) + creates rs"
proof (induction rs arbitrary: s)
  case Nil
  then show ?case by (simp add: creates_def successful_deletes_def)
next
  case (Cons r rs)
  from Cons.prems have g: "good (snd (handle db r s))" by (rule handle_good)
  from Cons.IH[OF Cons.prems(1) g] handle_count[OF Cons.prems, of r]
  show ?case
    by (simp only: run_Cons_snd run_Cons_fst creates_Cons successful_deletes_Cons
        split: if_splits)
       simp_all
qed

section \<open>The reference store keeps the contract\<close>

lemma mem_db_simps [simp]:
  "db_find mem_db = mem_find"
  "db_findOne mem_db = mem_findOne"
  "db_insert mem_db = mem_insert"
  "db_update mem_db = mem_update"
  "db_remove mem_db = mem_remove"
  by (simp_all add: mem_db_def)

lemma wf_empty: "wf_store empty_store"
  by (simp add: wf_store_def empty_store_def ids_of_def)

lemma wf_fresh: "wf_store s \<Longrightarrow> find (has_id (dec (issued s))) (docs s) = None"
proof -
  assume wf: "wf_store s"
  have "\<not> (\<exists>d. d \<in> set (docs s) \<and> has_id (dec (issued s)) d)"
  proof
    assume "\<exists>d. d \<in> set (docs s) \<and> has_id (dec (issued s)) d"
    then obtain d where d: "d \<in> set (docs s)" and h: "has_id (dec (issued s)) d" by blast
    from d have "map_of d ''_id'' \<in> set (ids_of (docs s))" by (auto simp: ids_of_def)
    with h have "Some (JStr (dec (issued s))) \<in> set (ids_of (docs s))" by (simp add: has_id_def)
    with wf obtain k where "k < issued s" and "dec (issued s) = dec k"
      by (auto simp: wf_store_def)
    then show False using dec_inj by blast
  qed
  then show ?thesis by (simp add: find_None_iff)
qed

lemma wf_insert: "wf_store s \<Longrightarrow> wf_store (snd (mem_insert d s))"
proof -
  assume wf: "wf_store s"
  have new: "Some (JStr (dec (issued s))) \<notin> set (ids_of (docs s))"
  proof
    assume "Some (JStr (dec (issued s))) \<in> set (ids_of (docs s))"
    with wf obtain k where "k < issued s" and "dec (issued s) = dec k"
      by (auto simp: wf_store_def)
    then show False using dec_inj by blast
  qed
  from wf have sub: "set (ids_of (docs s)) \<subseteq> (\<lambda>k. Some (JStr (dec k))) ` {..<Suc (issued s)}"
    by (auto simp: wf_store_def)
  from wf new sub show ?thesis
    by (simp add: mem_insert_def Let_def wf_store_def ids_of_def update_conv')
qed

lemma wf_update: "wf_store s \<Longrightarrow> wf_store (snd (mem_update i b s))"
  by (auto simp: mem_update_def Let_def wf_store_def ids_of_replace_first split: option.splits)

lemma wf_remove: "wf_store s \<Longrightarrow> wf_store (snd (mem_remove i s))"
  using ids_of_remove_first_subset[of "has_id i" "docs s"]
  by (auto simp: mem_remove_def wf_store_def distinct_ids_remove_first split: option.splits)

lemma mem_db_contract: "store_contract mem_db docs wf_store"
  unfolding store_contract_def
proof (intro conjI allI impI)
  fix s assume "wf_store s"
  then show "distinct (ids_of (docs s))" by (simp add: wf_store_def)
next
  fix s show "db_find mem_db s = Inr (docs s)" by (simp add: mem_find_def)
next
  fix i s show "db_findOne mem_db i s = Inr (find (has_id i) (docs s))"
    by (simp add: mem_findOne_def)
next
  fix d s assume "wf_store s"
  then show "wf_store (snd (db_insert mem_db d s))" by (simp add: wf_insert)
next
  fix d s assume wf: "wf_store s"
  show "\<exists>i. i \<noteq> [] \<and> find (has_id i) (docs s) = None \<and>
            fst (db_insert mem_db d s) = Inr (AList.update ''_id'' (JStr i) d) \<and>
            docs (snd (db_insert mem_db d s)) = docs s @ [AList.update ''_id'' (JStr i) d]"
    by (rule exI[of _ "dec (issued s)"])
       (simp add: dec_not_Nil wf_fresh[OF wf] mem_insert_def Let_def)
next
  fix i b s assume "wf_store s"
  then show "wf_store (snd (db_update mem_db i b s))" by (simp add: wf_update)
next
  fix i b s
  show "case fst (db_update mem_db i b s) of
          Inr (Some d') \<Rightarrow>
            has_id i d' \<and>
            docs (snd (db_update mem_db i b s)) = replace_first (has_id i) d' (docs s)
        | _ \<Rightarrow> docs (snd (db_update mem_db i b s)) = docs s"
    by (simp add: mem_update_def Let_def split: option.splits)
next
  fix i s assume "wf_store s"
  then show "wf_store (snd (db_remove mem_db i s))" by (simp add: wf_remove)
next
  fix i s show "\<exists>n. fst (db_remove mem_db i s) = Inr n"
    by (simp add: mem_remove_def split: option.splits)
next
  fix i s show "docs (snd (db_remove mem_db i s)) = remove_first (has_id i) (docs s)"
    by (simp add: mem_remove_def remove_first_id split: option.splits)
qed

lemma wf_reach: "wf_store (reach rs)"
  unfolding reach_def by (rule run_good[OF mem_db_contract wf_empty])

section \<open>The handlers over the reference store\<close>

lemma get_pets_mem: "get_pets mem_db s = (Responded (send (Docs (docs s))), s)"
  by (simp add: get_pets_def mem_find_def)

lemma get_pet_mem:
  "get_pet mem_db i s =
     (case find (has_id i) (docs s) of
        None \<Rightarrow> (Responded (sendStatus 404), s)
      | Some d \<Rightarrow> (Responded (send (Doc d)), s))"
  by (simp add: get_pet_def mem_findOne_def)

lemma post_pet_mem:
  "post_pet mem_db b s =
     (Responded (status_send 201 (Doc (AList.update ''_id'' (JStr (dec (issued s))) b))),
      \<lparr>docs = docs s @ [AList.update ''_id'' (JStr (dec (issued s))) b],
         issued = Suc (issued s)\<rparr>)"
  by (simp add: post_pet_def mem_insert_def Let_def)

lemma put_pet_mem:
  "put_pet mem_db i b s =
     (case find (has_id i) (docs s) of
        None \<Rightarrow> (Responded (sendStatus 404), s)
      | Some d \<Rightarrow>
          if has_id i (set_fields b d)
          then (Responded (send (Doc (set_fields b d))),
                s\<lparr>docs := replace_first (has_id i) (set_fields b d) (docs s)\<rparr>)
          else (Responded (status_send 500 (Text ''You cannot change the _id of a document'')),
                s))"
  by (simp add: put_pet_def mem_findOne_def mem_update_def Let_def split: option.splits)

lemma delete_pet_mem:
  "delete_pet mem_db i s =
     (case find (has_id i) (docs s) of
        None \<Rightarrow> (Responded (sendStatus 404), s)
      | Some d \<Rightarrow> (Responded (sendStatus 200), s\<lparr>docs := remove_first (has_id i) (docs s)\<rparr>))"
  by (simp add: delete_pet_def mem_findOne_def mem_remove_def split: option.splits)

text \<open>Only a Create returns a created identifier, and it is the next numeral.\<close>

lemma handle_created:
  "created_id (r, fst (handle mem_db r s)) = (if is_create r then [dec (issued s)] else []) \<and>
   issued (snd (handle mem_db r s)) = (if is_create r then Suc (issued s) else issued s)"
  by (cases r)
     (simp_all add: get_pets_mem get_pet_mem post_pet_mem put_pet_mem delete_pet_mem
        status_send_def update_conv' split: option.splits)

lemma run_created:
  "created_ids rs (fst (run mem_db rs s)) = map dec [issued s ..< issued s + creates rs] \<and>
   issued (snd (run mem_db rs s)) = issued s + creates rs"
proof (induction rs arbitrary: s)
  case Nil
  then show ?case by (simp add: creates_def created_ids_def)
next
  case (Cons r rs)
  let ?s1 = "snd (handle mem_db r s)"
  note ih = Cons.IH[of ?s1]
  note h = handle_created[of r s]
  show ?case
  proof (cases "is_create r")
    case True
    with h have i: "issued ?s1 = Suc (issued s)"
      and c: "created_id (r, fst (handle mem_db r s)) = [dec (issued s)]" by simp_all
    from ih i have "created_ids rs (fst (run mem_db rs ?s1))
        = map dec [Suc (issued s) ..< Suc (issued s) + creates rs]"
      and "issued (snd (run mem_db rs ?s1)) = Suc (issued s) + creates rs" by simp_all
    with True c show ?thesis
      by (simp only: run_Cons_snd run_Cons_fst creates_Cons created_ids_Cons upt_add_Suc if_True)
         simp
  next
    case False
    with h have i: "issued ?s1 = issued s"
      and c: "created_id (r, fst (handle mem_db r s)) = []" by simp_all
    from ih i have "created_ids rs (fst (run mem_db rs ?s1))
        = map dec [issued s ..< issued s + creates rs]"
      and "issued (snd (run mem_db rs ?s1)) = issued s + creates rs" by simp_all
    with False c show ?thesis
      by (simp only: run_Cons_snd run_Cons_fst creates_Cons created_ids_Cons if_False)
         simp
  qed
qed

section \<open>Claims settled on the handlers alone, for every store\<close>

text \<open>
  Claim C4. For every identifier that no record in the store has, Get-by-id, Update and
  Delete each answer NotFound (404) and never ServerFault (500), assuming the store read
  itself does not fault. "No record has the identifier and the read does not fault" is:
  the lookup \<^verbatim>\<open>findOne({ _id: i })\<close> resolves with \<^verbatim>\<open>null\<close>. This holds for every store,
  every request body and every state; Update and Delete then issue no write, so the store
  is left in the state it was in.
\<close>

theorem absent_id_is_not_found:
  "db_findOne db i s = Inr None \<Longrightarrow>
     status_of (fst (get_pet db i s)) = Some 404 \<and>
     status_of (fst (put_pet db i b s)) = Some 404 \<and>
     status_of (fst (delete_pet db i s)) = Some 404 \<and>
     status_of (fst (get_pet db i s)) \<noteq> Some 500 \<and>
     status_of (fst (put_pet db i b s)) \<noteq> Some 500 \<and>
     status_of (fst (delete_pet db i s)) \<noteq> Some 500 \<and>
     snd (put_pet db i b s) = s \<and>
     snd (delete_pet db i s) = s"
  by (simp add: get_pet_def put_pet_def delete_pet_def sendStatus_def)

theorem absent_id_is_not_found_witness:
  "db_findOne mem_db ''nonexistent-id'' (reach [PostPet [(''type'', JStr ''dog'')]]) = Inr None \<and>
   status_of (fst (get_pet mem_db ''nonexistent-id'' (reach [PostPet [(''type'', JStr ''dog'')]])))
     = Some 404 \<and>
   status_of (fst (put_pet mem_db ''nonexistent-id'' [(''name'', JStr ''Xander'')]
                     (reach [PostPet [(''type'', JStr ''dog'')]])))
     = Some 404 \<and>
   status_of (fst (delete_pet mem_db ''nonexistent-id'' (reach [PostPet [(''type'', JStr ''dog'')]])))
     = Some 404"
proof -
  have h: "db_findOne mem_db ''nonexistent-id'' (reach [PostPet [(''type'', JStr ''dog'')]])
             = Inr None"
    by code_simp
  from absent_id_is_not_found[OF h, of "[(''name'', JStr ''Xander'')]"] h show ?thesis
    by simp
qed

text \<open>
  Claim C8. Whenever the store raises a fault during the write or remove step of Create,
  Update or Delete, the handler catches it and answers 500 with the fault's message text
  as the body, verbatim; List and Get-by-id have no such guard, and a store fault there
  is not handled: the handler's promise is rejected with that fault. For every store.
\<close>

theorem store_fault_handling:
  "(db_insert db b1 s1 = (Inl e1, s1') \<longrightarrow>
      post_pet db b1 s1 = (Responded \<lparr>status = 500, body = Text (message e1)\<rparr>, s1')) \<and>
   (db_findOne db i2 s2 = Inr (Some d2) \<and> db_update db i2 b2 s2 = (Inl e2, s2') \<longrightarrow>
      put_pet db i2 b2 s2 = (Responded \<lparr>status = 500, body = Text (message e2)\<rparr>, s2')) \<and>
   (db_findOne db i3 s3 = Inr (Some d3) \<and> db_remove db i3 s3 = (Inl e3, s3') \<longrightarrow>
      delete_pet db i3 s3 = (Responded \<lparr>status = 500, body = Text (message e3)\<rparr>, s3')) \<and>
   (db_find db s4 = Inl e4 \<longrightarrow> get_pets db s4 = (Unhandled e4, s4)) \<and>
   (db_findOne db i5 s5 = Inl e5 \<longrightarrow> get_pet db i5 s5 = (Unhandled e5, s5))"
  by (simp add: post_pet_def put_pet_def delete_pet_def get_pets_def get_pet_def status_send_def)

theorem store_fault_handling_witness:
  "post_pet failing_db [(''name'', JStr ''Rex'')] (reach [PostPet [(''name'', JStr ''Rex'')]])
     = (Responded \<lparr>status = 500, body = Text ''ENOSPC: no space left on device''\<rparr>,
        reach [PostPet [(''name'', JStr ''Rex'')]]) \<and>
   put_pet failing_db ''0'' [(''name'', JStr ''Max'')] (reach [PostPet [(''name'', JStr ''Rex'')]])
     = (Responded \<lparr>status = 500, body = Text ''ENOSPC: no space left on device''\<rparr>,
        reach [PostPet [(''name'', JStr ''Rex'')]]) \<and>
   delete_pet failing_db ''0'' (reach [PostPet [(''name'', JStr ''Rex'')]])
     = (Responded \<lparr>status = 500, body = Text ''ENOSPC: no space left on device''\<rparr>,
        reach [PostPet [(''name'', JStr ''Rex'')]]) \<and>
   get_pets failing_db (reach [PostPet [(''name'', JStr ''Rex'')]])
     = (Unhandled (Fault ''EIO: read error''), reach [PostPet [(''name'', JStr ''Rex'')]]) \<and>
   get_pet failing_db ''unreadable'' (reach [PostPet [(''name'', JStr ''Rex'')]])
     = (Unhandled (Fault ''EIO: read error''), reach [PostPet [(''name'', JStr ''Rex'')]])"
proof -
  let ?s = "reach [PostPet [(''name'', JStr ''Rex'')]]"
  let ?d = "[(''name'', JStr ''Rex''), (''_id'', JStr ''0'')]"
  let ?w = "Fault ''ENOSPC: no space left on device''"
  let ?r = "Fault ''EIO: read error''"
  have h1: "db_insert failing_db [(''name'', JStr ''Rex'')] ?s = (Inl ?w, ?s)"
    by (simp add: failing_db_def)
  have h2: "db_findOne failing_db ''0'' ?s = Inr (Some ?d)" by code_simp
  have h3: "db_update failing_db ''0'' [(''name'', JStr ''Max'')] ?s = (Inl ?w, ?s)"
    by (simp add: failing_db_def)
  have h4: "db_remove failing_db ''0'' ?s = (Inl ?w, ?s)"
    by (simp add: failing_db_def)
  have h5: "db_find failing_db ?s = Inl ?r" by (simp add: failing_db_def)
  have h6: "db_findOne failing_db ''unreadable'' ?s = Inl ?r" by (simp add: failing_db_def)
  from store_fault_handling[where db = failing_db and ?b1.0 = "[(''name'', JStr ''Rex'')]"
      and ?s1.0 = ?s and ?e1.0 = ?w and s1' = ?s
      and ?i2.0 = "''0''" and ?s2.0 = ?s and ?d2.0 = ?d and ?b2.0 = "[(''name'', JStr ''Max'')]"
      and ?e2.0 = ?w and s2' = ?s
      and ?i3.0 = "''0''" and ?s3.0 = ?s and ?d3.0 = ?d and ?e3.0 = ?w and s3' = ?s
      and ?s4.0 = ?s and ?e4.0 = ?r and ?i5.0 = "''unreadable''" and ?s5.0 = ?s and ?e5.0 = ?r]
    h1 h2 h3 h4 h5 h6
  show ?thesis by simp
qed

text \<open>
  Claim C9, as stated: every NotFound outcome of Get-by-id, Update or Delete has the
  not-found status with an empty body and never includes diagnostic text. The handlers
  answer NotFound with \<^verbatim>\<open>res.sendStatus(404)\<close>, which sends the status message as the body:
  the body is the text "Not Found", not empty.
\<close>

theorem not_found_body_counterexample:
  "fst (get_pet mem_db ''nonexistent-id'' empty_store)
     = Responded \<lparr>status = 404, body = Text ''Not Found''\<rparr> \<and>
   fst (put_pet mem_db ''nonexistent-id'' [(''name'', JStr ''Xander'')] empty_store)
     = Responded \<lparr>status = 404, body = Text ''Not Found''\<rparr> \<and>
   fst (delete_pet mem_db ''nonexistent-id'' empty_store)
     = Responded \<lparr>status = 404, body = Text ''Not Found''\<rparr> \<and>
   Text ''Not Found'' \<noteq> Text ''''"
  by code_simp

text \<open>
  Claim C9, amended: every answer of Get-by-id, Update or Delete with the not-found
  status is the bare status sent by \<^verbatim>\<open>sendStatus(404)\<close>: its body is the fixed status text
  "Not Found", whatever the store, its state, the identifier and the request body; it is
  never a record and never a fault's message (no diagnostic text).
\<close>

theorem not_found_response:
  "fst (get_pet db i s) = Responded r \<or> fst (put_pet db i b s) = Responded r \<or>
   fst (delete_pet db i s) = Responded r \<Longrightarrow>
   status r = 404 \<Longrightarrow> r = sendStatus 404 \<and> body r = Text ''Not Found''"
  by (auto simp add: get_pet_def put_pet_def delete_pet_def sendStatus_def send_def
        status_send_def status_message_def
      split: sum.splits option.splits prod.splits)

theorem not_found_response_witness:
  "fst (get_pet mem_db ''nonexistent-id'' empty_store)
     = Responded \<lparr>status = 404, body = Text ''Not Found''\<rparr> \<and>
   status \<lparr>status = 404, body = Text ''Not Found''\<rparr> = 404 \<and>
   \<lparr>status = 404, body = Text ''Not Found''\<rparr> = sendStatus 404"
proof -
  let ?r = "\<lparr>status = 404, body = Text ''Not Found''\<rparr>"
  have h1: "fst (get_pet mem_db ''nonexistent-id'' empty_store) = Responded ?r" by code_simp
  then have h1': "fst (get_pet mem_db ''nonexistent-id'' empty_store) = Responded ?r \<or>
      fst (put_pet mem_db ''nonexistent-id'' [] empty_store) = Responded ?r \<or>
      fst (delete_pet mem_db ''nonexistent-id'' empty_store) = Responded ?r" by simp
  have h2: "status ?r = 404" by simp
  from not_found_response[OF h1' h2] h1 h2 show ?thesis by simp
qed

section \<open>Claims settled on the handlers over every store that keeps the contract\<close>

text \<open>
  Claim C7. Create performs no required-field validation: every request body, including
  one without the documented required fields \<^verbatim>\<open>type\<close> and \<^verbatim>\<open>name\<close>, is handed to the store
  as it is, inserted, and returned with status 201 together with the assigned identifier.
  The record returned and stored has the fields of the body and the identifier in \<^verbatim>\<open>_id\<close>.
\<close>

theorem create_accepts_any_body:
  assumes "store_contract db view good" and "good s"
  shows "\<exists>d i s'. post_pet db b s = (Responded \<lparr>status = 201, body = Doc d\<rparr>, s') \<and>
           view s' = view s @ [d] \<and>
           i \<noteq> [] \<and>
           map_of d = (map_of b)(''_id'' \<mapsto> JStr i)"
proof -
  from post_pet_contract[OF assms, of b] obtain i where
    n: "i \<noteq> []"
    and p: "post_pet db b s =
             (Responded \<lparr>status = 201, body = Doc (AList.update ''_id'' (JStr i) b)\<rparr>,
              snd (db_insert db b s))"
    and w: "view (snd (db_insert db b s)) = view s @ [AList.update ''_id'' (JStr i) b]" by blast
  have "map_of (AList.update ''_id'' (JStr i) b) = (map_of b)(''_id'' \<mapsto> JStr i)"
    by (rule update_conv')
  with n p w show ?thesis by blast
qed

theorem create_accepts_any_body_witness:
  "post_pet mem_db [] empty_store
     = (Responded \<lparr>status = 201, body = Doc [(''_id'', JStr ''0'')]\<rparr>,
        \<lparr>docs = [[(''_id'', JStr ''0'')]], issued = 1\<rparr>) \<and>
   map_of [(''_id'', JStr ''0'')] ''type'' = None \<and>
   map_of [(''_id'', JStr ''0'')] ''name'' = None"
proof -
  have e: "post_pet mem_db [] empty_store
     = (Responded \<lparr>status = 201, body = Doc [(''_id'', JStr ''0'')]\<rparr>,
        \<lparr>docs = [[(''_id'', JStr ''0'')]], issued = 1\<rparr>)" by code_simp
  from create_accepts_any_body[OF mem_db_contract wf_empty, of "[]"] obtain d i s' where
    p: "post_pet mem_db [] empty_store = (Responded \<lparr>status = 201, body = Doc d\<rparr>, s')"
    and m: "map_of d = (map_of [])(''_id'' \<mapsto> JStr i)" by blast
  from e p have d: "d = [(''_id'', JStr ''0'')]" by simp
  from m have "map_of d ''type'' = None" and "map_of d ''name'' = None" by simp_all
  with d e show ?thesis by simp
qed

text \<open>
  Claim C2. For every request body, Create followed by Get-by-id with the identifier of
  the record Create returned yields a record equal to the one Create returned. In every
  good state of a store that keeps the contract: Create answers 201 with a record \<open>d\<close>
  whose \<^verbatim>\<open>_id\<close> is a string \<open>i\<close>, and Get-by-id of \<open>i\<close> in the state Create left answers 200
  with the same \<open>d\<close>.
\<close>

theorem get_after_create:
  assumes "store_contract db view good" and "good s"
  shows "\<exists>d i s'. post_pet db b s = (Responded \<lparr>status = 201, body = Doc d\<rparr>, s') \<and>
           has_id i d \<and>
           get_pet db i s' = (Responded \<lparr>status = 200, body = Doc d\<rparr>, s')"
proof -
  from post_pet_contract[OF assms, of b] obtain i where
    f: "find (has_id i) (view s) = None"
    and p: "post_pet db b s =
             (Responded \<lparr>status = 201, body = Doc (AList.update ''_id'' (JStr i) b)\<rparr>,
              snd (db_insert db b s))"
    and w: "view (snd (db_insert db b s)) = view s @ [AList.update ''_id'' (JStr i) b]"
    and g: "good (snd (db_insert db b s))" by blast
  let ?d = "AList.update ''_id'' (JStr i) b"
  have h: "has_id i ?d" by (rule has_id_inserted)
  from f have "\<not> (\<exists>x. x \<in> set (view s) \<and> has_id i x)" by (simp add: find_None_iff)
  then have "find (has_id i) (view s @ [?d]) = Some ?d" using h by (rule find_append_fresh)
  with w have "get_pet db i (snd (db_insert db b s))
      = (Responded \<lparr>status = 200, body = Doc ?d\<rparr>, snd (db_insert db b s))"
    by (simp add: get_pet_contract[OF assms(1) g])
  with p h show ?thesis by blast
qed

theorem get_after_create_witness:
  "post_pet mem_db [(''type'', JStr ''dog''), (''name'', JStr ''Alexander'')] empty_store
     = (Responded \<lparr>status = 201,
          body = Doc [(''type'', JStr ''dog''), (''name'', JStr ''Alexander''), (''_id'', JStr ''0'')]\<rparr>,
        \<lparr>docs = [[(''type'', JStr ''dog''), (''name'', JStr ''Alexander''), (''_id'', JStr ''0'')]],
           issued = 1\<rparr>) \<and>
   get_pet mem_db ''0''
       \<lparr>docs = [[(''type'', JStr ''dog''), (''name'', JStr ''Alexander''), (''_id'', JStr ''0'')]],
          issued = 1\<rparr>
     = (Responded \<lparr>status = 200,
          body = Doc [(''type'', JStr ''dog''), (''name'', JStr ''Alexander''), (''_id'', JStr ''0'')]\<rparr>,
        \<lparr>docs = [[(''type'', JStr ''dog''), (''name'', JStr ''Alexander''), (''_id'', JStr ''0'')]],
           issued = 1\<rparr>)"
proof -
  let ?b = "[(''type'', JStr ''dog''), (''name'', JStr ''Alexander'')]"
  let ?d = "[(''type'', JStr ''dog''), (''name'', JStr ''Alexander''), (''_id'', JStr ''0'')]"
  let ?t = "\<lparr>docs = [?d], issued = 1\<rparr>"
  have e: "post_pet mem_db ?b empty_store = (Responded \<lparr>status = 201, body = Doc ?d\<rparr>, ?t)"
    by code_simp
  from get_after_create[OF mem_db_contract wf_empty, of ?b] obtain d i s' where
    p: "post_pet mem_db ?b empty_store = (Responded \<lparr>status = 201, body = Doc d\<rparr>, s')"
    and h: "has_id i d"
    and g: "get_pet mem_db i s' = (Responded \<lparr>status = 200, body = Doc d\<rparr>, s')" by blast
  from e p have d: "d = ?d" and s: "s' = ?t" by simp_all
  from h d have "i = ''0''" by (simp add: has_id_def)
  with e g d s show ?thesis by simp
qed

text \<open>
  Claim C3. For every identifier, Delete followed by Get-by-id on the same identifier
  yields NotFound (404) from the Get, in every store state: in every good state of a
  store that keeps the contract, whether the Delete found the record (and removed it) or
  not.
\<close>

theorem get_after_delete:
  assumes "store_contract db view good" and "good s"
  shows "status_of (fst (get_pet db i (snd (delete_pet db i s)))) = Some 404"
proof -
  from delete_pet_contract[OF assms, of i]
  have g: "good (snd (delete_pet db i s))"
    and w: "view (snd (delete_pet db i s)) = remove_first (has_id i) (view s)" by simp_all
  have "find (has_id i) (remove_first (has_id i) (view s)) = None"
    using contract_distinct[OF assms] by (rule find_remove_first)
  with w show ?thesis by (simp add: get_pet_contract[OF assms(1) g] sendStatus_def)
qed

theorem get_after_delete_witness:
  "status_of (fst (delete_pet mem_db ''0'' (reach [PostPet [(''name'', JStr ''Rex'')]])))
     = Some 200 \<and>
   status_of (fst (get_pet mem_db ''0''
         (snd (delete_pet mem_db ''0'' (reach [PostPet [(''name'', JStr ''Rex'')]])))))
     = Some 404"
proof -
  have "status_of (fst (delete_pet mem_db ''0'' (reach [PostPet [(''name'', JStr ''Rex'')]])))
     = Some 200" by code_simp
  with get_after_delete[OF mem_db_contract wf_reach, of "''0''" "[PostPet [(''name'', JStr ''Rex'')]]"]
  show ?thesis by simp
qed

text \<open>
  Claim C5. For every sequential sequence of operations starting from an empty store,
  List returns the full set of Pet records, and the number of records it returns equals
  the number of Creates minus the number of successful Deletes performed so far. For a
  store that keeps the contract, started in a good state without records, after any
  sequence of requests: List answers 200 with all records the store holds, and their
  number is the number of Create requests minus the number of Delete requests that were
  answered 200.
\<close>

theorem list_counts_creates_minus_deletes:
  assumes "store_contract db view good" and "good s0" and "view s0 = []"
  shows "\<exists>outs s. run db rs s0 = (outs, s) \<and>
           get_pets db s = (Responded \<lparr>status = 200, body = Docs (view s)\<rparr>, s) \<and>
           successful_deletes rs outs \<le> creates rs \<and>
           length (view s) = creates rs - successful_deletes rs outs"
proof -
  obtain outs s where r: "run db rs s0 = (outs, s)" by (cases "run db rs s0")
  from run_good[OF assms(1,2), of rs] r have g: "good s" by simp
  from run_count[OF assms(1,2), of rs] r assms(3)
  have "length (view s) + successful_deletes rs outs = creates rs" by simp
  then have "successful_deletes rs outs \<le> creates rs"
    and "length (view s) = creates rs - successful_deletes rs outs" by simp_all
  with r get_pets_contract[OF assms(1) g] show ?thesis by simp
qed

theorem list_counts_creates_minus_deletes_witness:
  "creates [PostPet [(''name'', JStr ''Rex'')], PostPet [(''name'', JStr ''Bo'')],
            DeletePet ''0'', DeletePet ''0'', GetPet ''1''] = 2 \<and>
   successful_deletes
     [PostPet [(''name'', JStr ''Rex'')], PostPet [(''name'', JStr ''Bo'')],
      DeletePet ''0'', DeletePet ''0'', GetPet ''1'']
     (fst (run mem_db
        [PostPet [(''name'', JStr ''Rex'')], PostPet [(''name'', JStr ''Bo'')],
         DeletePet ''0'', DeletePet ''0'', GetPet ''1''] empty_store)) = 1 \<and>
   fst (get_pets mem_db (reach
        [PostPet [(''name'', JStr ''Rex'')], PostPet [(''name'', JStr ''Bo'')],
         DeletePet ''0'', DeletePet ''0'', GetPet ''1'']))
     = Responded \<lparr>status = 200, body = Docs [[(''name'', JStr ''Bo''), (''_id'', JStr ''1'')]]\<rparr>"
proof -
  let ?rs = "[PostPet [(''name'', JStr ''Rex'')], PostPet [(''name'', JStr ''Bo'')],
              DeletePet ''0'', DeletePet ''0'', GetPet ''1'']"
  have v: "docs empty_store = []" by (simp add: empty_store_def)
  have c: "creates ?rs = 2" by code_simp
  have d: "successful_deletes ?rs (fst (run mem_db ?rs empty_store)) = 1" by code_simp
  have e: "docs (reach ?rs) = [[(''name'', JStr ''Bo''), (''_id'', JStr ''1'')]]" by code_simp
  from list_counts_creates_minus_deletes[OF mem_db_contract wf_empty v, of ?rs]
  obtain outs s where r: "run mem_db ?rs empty_store = (outs, s)"
    and g: "get_pets mem_db s = (Responded \<lparr>status = 200, body = Docs (docs s)\<rparr>, s)"
    by blast
  from r have "s = reach ?rs" by (simp add: reach_def)
  with g e have "fst (get_pets mem_db (reach ?rs))
     = Responded \<lparr>status = 200, body = Docs [[(''name'', JStr ''Bo''), (''_id'', JStr ''1'')]]\<rparr>"
    by simp
  with c d show ?thesis by simp
qed

text \<open>
  Claim C10. For every store state and every identifier, Update and Delete leave every
  record whose identifier differs from the given one unchanged, and Update never adds a
  record (no upsert): the identifiers in the store after an Update are those before it.
  In every good state of a store that keeps the contract: the records without the given
  identifier are the same, in the same order, after Update and after Delete; after
  Update the list of identifiers is the same; and when the lookup finds no record, both
  handlers leave the state untouched, for every store.
\<close>

theorem update_delete_frame:
  assumes "store_contract db view good" and "good s"
  shows "filter (\<lambda>d. \<not> has_id i d) (view (snd (put_pet db i b s)))
           = filter (\<lambda>d. \<not> has_id i d) (view s) \<and>
         filter (\<lambda>d. \<not> has_id i d) (view (snd (delete_pet db i s)))
           = filter (\<lambda>d. \<not> has_id i d) (view s) \<and>
         ids_of (view (snd (put_pet db i b s))) = ids_of (view s) \<and>
         (db_findOne db i s = Inr None \<longrightarrow>
            snd (put_pet db i b s) = s \<and> snd (delete_pet db i s) = s)"
proof -
  from put_pet_contract[OF assms, of i b]
  have a: "filter (\<lambda>d. \<not> has_id i d) (view (snd (put_pet db i b s)))
             = filter (\<lambda>d. \<not> has_id i d) (view s)"
    and c: "ids_of (view (snd (put_pet db i b s))) = ids_of (view s)"
    by (auto simp: others_replace_first ids_of_replace_first)
  from delete_pet_contract[OF assms, of i]
  have b: "filter (\<lambda>d. \<not> has_id i d) (view (snd (delete_pet db i s)))
             = filter (\<lambda>d. \<not> has_id i d) (view s)"
    by (simp add: others_remove_first)
  have d: "db_findOne db i s = Inr None \<longrightarrow>
             snd (put_pet db i b s) = s \<and> snd (delete_pet db i s) = s"
    by (simp add: put_pet_def delete_pet_def)
  from a b c d show ?thesis by blast
qed

theorem update_delete_frame_witness:
  "docs (reach [PostPet [(''name'', JStr ''Rex'')], PostPet [(''name'', JStr ''Bo'')]])
     = [[(''name'', JStr ''Rex''), (''_id'', JStr ''0'')], [(''name'', JStr ''Bo''), (''_id'', JStr ''1'')]] \<and>
   docs (snd (put_pet mem_db ''0'' [(''name'', JStr ''Max'')]
                (reach [PostPet [(''name'', JStr ''Rex'')], PostPet [(''name'', JStr ''Bo'')]])))
     = [[(''name'', JStr ''Max''), (''_id'', JStr ''0'')], [(''name'', JStr ''Bo''), (''_id'', JStr ''1'')]] \<and>
   docs (snd (delete_pet mem_db ''0''
                (reach [PostPet [(''name'', JStr ''Rex'')], PostPet [(''name'', JStr ''Bo'')]])))
     = [[(''name'', JStr ''Bo''), (''_id'', JStr ''1'')]] \<and>
   filter (\<lambda>d. \<not> has_id ''0'' d)
     (docs (snd (put_pet mem_db ''0'' [(''name'', JStr ''Max'')]
                (reach [PostPet [(''name'', JStr ''Rex'')], PostPet [(''name'', JStr ''Bo'')]]))))
     = filter (\<lambda>d. \<not> has_id ''0'' d)
         (docs (reach [PostPet [(''name'', JStr ''Rex'')], PostPet [(''name'', JStr ''Bo'')]]))"
proof -
  let ?rs = "[PostPet [(''name'', JStr ''Rex'')], PostPet [(''name'', JStr ''Bo'')]]"
  have a: "docs (reach ?rs)
     = [[(''name'', JStr ''Rex''), (''_id'', JStr ''0'')], [(''name'', JStr ''Bo''), (''_id'', JStr ''1'')]]"
    by code_simp
  have b: "docs (snd (put_pet mem_db ''0'' [(''name'', JStr ''Max'')] (reach ?rs)))
     = [[(''name'', JStr ''Max''), (''_id'', JStr ''0'')], [(''name'', JStr ''Bo''), (''_id'', JStr ''1'')]]"
    by code_simp
  have c: "docs (snd (delete_pet mem_db ''0'' (reach ?rs)))
     = [[(''name'', JStr ''Bo''), (''_id'', JStr ''1'')]]"
    by code_simp
  from update_delete_frame[OF mem_db_contract wf_reach, of "''0''" "[(''name'', JStr ''Max'')]" ?rs]
  have "filter (\<lambda>d. \<not> has_id ''0'' d)
          (docs (snd (put_pet mem_db ''0'' [(''name'', JStr ''Max'')] (reach ?rs))))
        = filter (\<lambda>d. \<not> has_id ''0'' d) (docs (reach ?rs))" by blast
  with a b c show ?thesis by blast
qed

section \<open>Claims about what the store itself does, on the reference store\<close>

text \<open>
  Claim C1, as stated: for every existing Pet record and every partial field map, Update
  applies the map as a merge-patch: exactly the named fields are overwritten and the
  response body is the updated record. A field map that names \<^verbatim>\<open>_id\<close> with another value
  is not applied: the identifier is immutable, the store refuses the update, and the
  handler answers 500 with the fault's message, the record left as it was.
\<close>

theorem update_changing_id_counterexample:
  "mem_findOne ''0'' (reach [PostPet [(''name'', JStr ''Rex'')]])
     = Inr (Some [(''name'', JStr ''Rex''), (''_id'', JStr ''0'')]) \<and>
   put_pet mem_db ''0'' [(''_id'', JStr ''1'')] (reach [PostPet [(''name'', JStr ''Rex'')]])
     = (Responded \<lparr>status = 500, body = Text ''You cannot change the _id of a document''\<rparr>,
        reach [PostPet [(''name'', JStr ''Rex'')]])"
  by code_simp

text \<open>
  Claim C1, amended: for every existing Pet record and every partial field map that does
  not name \<^verbatim>\<open>_id\<close> with a value other than the record's identifier, Update applies the map
  as a merge-patch onto the existing record: every field not named in the map keeps its
  previous value, exactly the named fields are overwritten, the response (status 200)
  carries the updated record, and that record is what the store holds under the
  identifier afterwards.
\<close>

theorem update_merges_patch:
  assumes "mem_findOne i s = Inr (Some d)"
    and "map_of b ''_id'' = None \<or> map_of b ''_id'' = Some (JStr i)"
  shows "\<exists>d'. put_pet mem_db i b s =
               (Responded \<lparr>status = 200, body = Doc d'\<rparr>,
                s\<lparr>docs := replace_first (has_id i) d' (docs s)\<rparr>) \<and>
              (\<forall>k v. map_of b k = Some v \<longrightarrow> map_of d' k = Some v) \<and>
              (\<forall>k. map_of b k = None \<longrightarrow> map_of d' k = map_of d k) \<and>
              mem_findOne i (snd (put_pet mem_db i b s)) = Inr (Some d')"
proof -
  from assms(1) have f: "find (has_id i) (docs s) = Some d" by (simp add: mem_findOne_def)
  then have hd: "has_id i d" by (rule find_has)
  have h: "has_id i (set_fields b d)" by (rule has_id_set_fields[OF hd assms(2)])
  have p: "put_pet mem_db i b s =
      (Responded \<lparr>status = 200, body = Doc (set_fields b d)\<rparr>,
       s\<lparr>docs := replace_first (has_id i) (set_fields b d) (docs s)\<rparr>)"
    using f h by (simp add: put_pet_mem send_def)
  have a: "\<forall>k v. map_of b k = Some v \<longrightarrow> map_of (set_fields b d) k = Some v"
    by (simp add: map_of_set_fields map_add_def)
  have c: "\<forall>k. map_of b k = None \<longrightarrow> map_of (set_fields b d) k = map_of d k"
    by (simp add: map_of_set_fields map_add_def)
  have g: "mem_findOne i (snd (put_pet mem_db i b s)) = Inr (Some (set_fields b d))"
    using find_replace_first[OF h f] by (simp add: p mem_findOne_def)
  from p a c g show ?thesis by blast
qed

theorem update_merges_patch_witness:
  "mem_findOne ''0'' (reach [PostPet [(''type'', JStr ''dog''), (''name'', JStr ''Alexander'')]])
     = Inr (Some [(''type'', JStr ''dog''), (''name'', JStr ''Alexander''), (''_id'', JStr ''0'')]) \<and>
   map_of [(''name'', JStr ''Xander'')] ''_id'' = None \<and>
   (\<exists>d'. fst (put_pet mem_db ''0'' [(''name'', JStr ''Xander'')]
            (reach [PostPet [(''type'', JStr ''dog''), (''name'', JStr ''Alexander'')]]))
          = Responded \<lparr>status = 200, body = Doc d'\<rparr> \<and>
          map_of d' ''name'' = Some (JStr ''Xander'') \<and>
          map_of d' ''type'' = Some (JStr ''dog''))"
proof -
  let ?s = "reach [PostPet [(''type'', JStr ''dog''), (''name'', JStr ''Alexander'')]]"
  let ?d = "[(''type'', JStr ''dog''), (''name'', JStr ''Alexander''), (''_id'', JStr ''0'')]"
  have h1: "mem_findOne ''0'' ?s = Inr (Some ?d)" by code_simp
  have h2: "map_of [(''name'', JStr ''Xander'')] ''_id'' = None \<or>
            map_of [(''name'', JStr ''Xander'')] ''_id'' = Some (JStr ''0'')" by simp
  from update_merges_patch[OF h1 h2] obtain d' where
    p: "put_pet mem_db ''0'' [(''name'', JStr ''Xander'')] ?s =
          (Responded \<lparr>status = 200, body = Doc d'\<rparr>,
           ?s\<lparr>docs := replace_first (has_id ''0'') d' (docs ?s)\<rparr>)"
    and a: "\<forall>k v. map_of [(''name'', JStr ''Xander'')] k = Some v \<longrightarrow> map_of d' k = Some v"
    and c: "\<forall>k. map_of [(''name'', JStr ''Xander'')] k = None \<longrightarrow> map_of d' k = map_of ?d k"
    by blast
  from a have n: "map_of d' ''name'' = Some (JStr ''Xander'')" by simp
  from c have "map_of d' ''type'' = map_of ?d ''type''" by simp
  then have t: "map_of d' ''type'' = Some (JStr ''dog'')" by simp
  from p have "fst (put_pet mem_db ''0'' [(''name'', JStr ''Xander'')] ?s)
      = Responded \<lparr>status = 200, body = Doc d'\<rparr>" by simp
  with h1 n t show ?thesis by auto
qed

text \<open>
  Claim C6. For every Create input, the identifier of the inserted record is generated by
  the store at insert time, is non-empty, and is unique across the collection's history;
  no operation thereafter changes a record's identifier. On the reference store: the
  record a Create returns carries the next identifier of the store, whatever the body;
  that identifier is not the empty string; over any sequence of requests from the empty
  store every Create returned an identifier and no two of them are the same; and each
  handler leaves the list of identifiers as it was (Update, Get-by-id, List), extends it
  by the new one (Create), or only takes the first matching record out (Delete).
\<close>

theorem ids_generated_unique_immutable:
  "(\<exists>d. fst (post_pet mem_db b s) = Responded \<lparr>status = 201, body = Doc d\<rparr> \<and>
        map_of d ''_id'' = Some (JStr (dec (issued s)))) \<and>
   dec (issued s) \<noteq> [] \<and>
   distinct (created_ids rs (fst (run mem_db rs empty_store))) \<and>
   length (created_ids rs (fst (run mem_db rs empty_store))) = creates rs \<and>
   [] \<notin> set (created_ids rs (fst (run mem_db rs empty_store))) \<and>
   ids_of (docs (snd (post_pet mem_db b s))) = ids_of (docs s) @ [Some (JStr (dec (issued s)))] \<and>
   ids_of (docs (snd (put_pet mem_db i b s))) = ids_of (docs s) \<and>
   docs (snd (delete_pet mem_db i s)) = remove_first (has_id i) (docs s) \<and>
   docs (snd (get_pet mem_db i s)) = docs s \<and>
   docs (snd (get_pets mem_db s)) = docs s"
proof -
  have a: "\<exists>d. fst (post_pet mem_db b s) = Responded \<lparr>status = 201, body = Doc d\<rparr> \<and>
        map_of d ''_id'' = Some (JStr (dec (issued s)))"
    by (simp add: post_pet_mem status_send_def update_conv')
  have c: "created_ids rs (fst (run mem_db rs empty_store)) = map dec [0 ..< creates rs]"
    using run_created[of rs empty_store] by (simp add: empty_store_def)
  have c1: "distinct (created_ids rs (fst (run mem_db rs empty_store)))"
    unfolding c by (rule distinct_map_dec)
  have c2: "length (created_ids rs (fst (run mem_db rs empty_store))) = creates rs"
    unfolding c by simp
  have c3: "[] \<notin> set (created_ids rs (fst (run mem_db rs empty_store)))"
  proof
    assume "[] \<in> set (created_ids rs (fst (run mem_db rs empty_store)))"
    then obtain k where "[] = dec k" unfolding c by auto
    then have "dec k = []" by simp
    with dec_not_Nil show False by blast
  qed
  have p: "ids_of (docs (snd (post_pet mem_db b s)))
             = ids_of (docs s) @ [Some (JStr (dec (issued s)))]"
    by (simp add: post_pet_mem ids_of_def update_conv')
  have u: "ids_of (docs (snd (put_pet mem_db i b s))) = ids_of (docs s)"
    by (simp add: put_pet_mem ids_of_replace_first split: option.splits)
  have r: "docs (snd (delete_pet mem_db i s)) = remove_first (has_id i) (docs s)"
    by (simp add: delete_pet_mem remove_first_id split: option.splits)
  have g: "docs (snd (get_pet mem_db i s)) = docs s"
    by (simp add: get_pet_mem split: option.splits)
  have l: "docs (snd (get_pets mem_db s)) = docs s"
    by (simp add: get_pets_mem)
  from a dec_not_Nil c1 c2 c3 p u r g l show ?thesis by blast
qed

theorem ids_generated_unique_immutable_witness:
  "created_ids
     [PostPet [(''name'', JStr ''Rex'')], DeletePet ''0'', PostPet [(''name'', JStr ''Rex'')],
      PutPet ''1'' [(''name'', JStr ''Max'')], PostPet []]
     (fst (run mem_db
        [PostPet [(''name'', JStr ''Rex'')], DeletePet ''0'', PostPet [(''name'', JStr ''Rex'')],
         PutPet ''1'' [(''name'', JStr ''Max'')], PostPet []] empty_store))
     = [''0'', ''1'', ''2''] \<and>
   distinct (created_ids
     [PostPet [(''name'', JStr ''Rex'')], DeletePet ''0'', PostPet [(''name'', JStr ''Rex'')],
      PutPet ''1'' [(''name'', JStr ''Max'')], PostPet []]
     (fst (run mem_db
        [PostPet [(''name'', JStr ''Rex'')], DeletePet ''0'', PostPet [(''name'', JStr ''Rex'')],
         PutPet ''1'' [(''name'', JStr ''Max'')], PostPet []] empty_store)))"
proof -
  let ?rs = "[PostPet [(''name'', JStr ''Rex'')], DeletePet ''0'', PostPet [(''name'', JStr ''Rex'')],
      PutPet ''1'' [(''name'', JStr ''Max'')], PostPet []]"
  have e: "created_ids ?rs (fst (run mem_db ?rs empty_store)) = [''0'', ''1'', ''2'']"
    by code_simp
  from ids_generated_unique_immutable[of "[]" empty_store ?rs "''0''"]
  have "distinct (created_ids ?rs (fst (run mem_db ?rs empty_store)))" by blast
  with e show ?thesis by blast
qed

end
